theory Spec2Isabelle
  imports Main
begin

section \<open>Tables\<close>

text \<open>
  A pandas table as far as \<^verbatim>\<open>gliderpy/fetchers.py\<close> uses one: an ordered list of
  labelled columns (labels may repeat, so an association list), the name of the index
  and the index values. A row is what the columns and the index hold at one position.
  Labels are ASCII text.
\<close>

datatype 'v cell = Str string | Val 'v | NaN

record 'v frame =
  cols :: "(string \<times> 'v cell list) list"
  index_name :: "string option"
  index :: "'v cell list"

definition columns :: "'v frame \<Rightarrow> string list" where
  "columns df = map fst (cols df)"

definition nrows :: "'v frame \<Rightarrow> nat" where
  "nrows df = length (index df)"

subsection \<open>Python strings\<close>

definition lower_char :: "char \<Rightarrow> char" where
  "lower_char c =
     (let n = (of_char c :: nat) in if 65 \<le> n \<and> n \<le> 90 then char_of (n + 32) else c)"

definition str_lower :: "string \<Rightarrow> string" where
  "str_lower s = map lower_char s"

definition endswith :: "string \<Rightarrow> string \<Rightarrow> bool" where
  "endswith s suf = (length suf \<le> length s \<and> drop (length s - length suf) s = suf)"

text \<open>\<^verbatim>\<open>s.split("?")[0]\<close>: the text before the first question mark.\<close>

definition split_query_head :: "string \<Rightarrow> string" where
  "split_query_head s = takeWhile (\<lambda>c. c \<noteq> CHR ''?'') s"

text \<open>Truth value and \<^verbatim>\<open>str()\<close> of an optional string (\<^verbatim>\<open>None\<close> or a \<^verbatim>\<open>str\<close>).\<close>

definition truthy :: "string option \<Rightarrow> bool" where
  "truthy d = (case d of None \<Rightarrow> False | Some s \<Rightarrow> s \<noteq> [])"

definition py_str :: "string option \<Rightarrow> string" where
  "py_str d = (case d of None \<Rightarrow> ''None'' | Some s \<Rightarrow> s)"

subsection \<open>The four statements of \<^verbatim>\<open>standardise_df\<close>\<close>

text \<open>
  \<^verbatim>\<open>server_parameter_rename\<close> lives in \<^verbatim>\<open>gliderpy/servers.py\<close>; the
  functions below take the dictionary built from it as their first argument.
\<close>

type_synonym rename_table = "string \<rightharpoonup> string"

definition rename_label :: "rename_table \<Rightarrow> string \<Rightarrow> string" where
  "rename_label ren c = (case ren c of Some c' \<Rightarrow> c' | None \<Rightarrow> c)"

text \<open>\<^verbatim>\<open>df.columns = df.columns.str.lower()\<close>\<close>

definition columns_str_lower :: "'v frame \<Rightarrow> 'v frame" where
  "columns_str_lower df = df\<lparr>cols := map (\<lambda>(c, xs). (str_lower c, xs)) (cols df)\<rparr>"

text \<open>\<^verbatim>\<open>df.rename(columns=dict(server_parameter_rename), inplace=True)\<close>\<close>

definition rename_columns :: "rename_table \<Rightarrow> 'v frame \<Rightarrow> 'v frame" where
  "rename_columns ren df = df\<lparr>cols := map (\<lambda>(c, xs). (rename_label ren c, xs)) (cols df)\<rparr>"

text \<open>\<^verbatim>\<open>df.index.rename("time", inplace=True)\<close>\<close>

definition index_rename :: "string \<Rightarrow> 'v frame \<Rightarrow> 'v frame" where
  "index_rename n df = df\<lparr>index_name := Some n\<rparr>"

text \<open>
  \<^verbatim>\<open>df[key] = scalar\<close>: every column labelled \<open>key\<close> is overwritten with the scalar
  in each row; when no column has the label, one is appended.
\<close>

definition setitem :: "'v frame \<Rightarrow> string \<Rightarrow> 'v cell \<Rightarrow> 'v frame" where
  "setitem df key v =
     (if key \<in> set (columns df)
      then df\<lparr>cols := map (\<lambda>(c, xs). if c = key then (c, replicate (nrows df) v) else (c, xs))
                         (cols df)\<rparr>
      else df\<lparr>cols := cols df @ [(key, replicate (nrows df) v)]\<rparr>)"

text \<open>The table \<^verbatim>\<open>standardise_df(df, dataset_url)\<close> returns.\<close>

definition standardise_df :: "rename_table \<Rightarrow> 'v frame \<Rightarrow> string \<Rightarrow> 'v frame" where
  "standardise_df ren df dataset_url =
     setitem (index_rename ''time'' (rename_columns ren (columns_str_lower df)))
       ''dataset_url'' (Str dataset_url)"

text \<open>
  The same function on an object store. A table is an object that holds its columns
  and a reference to its index; the index is an object of its own, with a name and the
  index values, and several tables may refer to one index object. \<open>frame_at\<close> reads a
  table through its reference. The argument \<open>r\<close> is a reference to a table:
  assigning \<^verbatim>\<open>df.columns\<close>, \<^verbatim>\<open>df.rename(..., inplace=True)\<close> and
  \<^verbatim>\<open>df[key] = ...\<close> write the columns of the table \<open>r\<close> points to,
  \<^verbatim>\<open>df.index.rename(..., inplace=True)\<close> writes the name of the index object that
  table points to, and \<^verbatim>\<open>return df\<close> hands the reference back.
\<close>

record 'v table_obj =
  obj_cols :: "(string \<times> 'v cell list) list"
  obj_index :: nat

record 'v index_obj =
  obj_name :: "string option"
  obj_values :: "'v cell list"

record 'v store =
  tables :: "nat \<rightharpoonup> 'v table_obj"
  indexes :: "nat \<rightharpoonup> 'v index_obj"





subsection \<open>Errors\<close>

text \<open>
  Every exception the module raises or lets through. \<open>Exception_from msg cs err\<close> is
  \<^verbatim>\<open>raise Exception(f"{msg}{cs}") from err\<close>: the f-string's literal text, the dictionary
  it interpolates, and the exception it chains. \<open>LibraryError\<close> is any other exception
  of pandas, erddapy or httpx.
\<close>

datatype 'b error =
    HTTPError string
  | LibraryError string
  | ValueError string
  | KeyError string
  | Exception_from string "(string \<times> 'b) list" "'b error"

subsection \<open>\<^verbatim>\<open>pd.concat\<close>\<close>

text \<open>
  \<^verbatim>\<open>pd.concat(objs)\<close> along the rows with pandas' defaults. An empty list raises. The
  index of the result is the objects' indexes one after the other. When all objects have
  the same labels the columns are stacked position by position; otherwise the labels of
  the result are their union in order of first appearance, an object contributes NaN
  under a label it lacks, and an object with a repeated label cannot be reindexed.
\<close>

definition stack_cols ::
  "(string \<times> 'v cell list) list \<Rightarrow> (string \<times> 'v cell list) list \<Rightarrow> (string \<times> 'v cell list) list" where
  "stack_cols a b = map (\<lambda>((c, xs), (c', ys)). (c, xs @ ys)) (zip a b)"

definition union_labels :: "string list list \<Rightarrow> string list" where
  "union_labels ls = rev (remdups (rev (concat ls)))"

definition column_or_nan :: "'v frame \<Rightarrow> string \<Rightarrow> 'v cell list" where
  "column_or_nan df c =
     (case map_of (cols df) c of Some xs \<Rightarrow> xs | None \<Rightarrow> replicate (nrows df) NaN)"

definition pd_concat :: "'v frame list \<Rightarrow> 'b error + 'v frame" where
  "pd_concat objs =
     (case objs of
        [] \<Rightarrow> Inl (ValueError ''No objects to concatenate'')
      | f # rest \<Rightarrow>
          (let nm = (if list_all (\<lambda>g. index_name g = index_name f) rest
                     then index_name f else None);
               ix = concat (map index objs)
           in if list_all (\<lambda>g. columns g = columns f) rest
              then Inr \<lparr>cols = foldl stack_cols (cols f) (map cols rest),
                        index_name = nm, index = ix\<rparr>
              else if list_all (\<lambda>g. distinct (columns g)) objs
              then Inr \<lparr>cols = map (\<lambda>c. (c, concat (map (\<lambda>g. column_or_nan g c) objs)))
                                 (union_labels (map columns objs)),
                        index_name = nm, index = ix\<rparr>
              else Inl (LibraryError ''InvalidIndexError'')))"

text \<open>
  \<^verbatim>\<open>df[key].to_list()\<close>: the cells of the one column labelled \<open>key\<close>. No such column
  is a KeyError; with several, \<^verbatim>\<open>df[key]\<close> is a table and has no \<^verbatim>\<open>to_list\<close>.
\<close>

definition getitem_to_list :: "'v frame \<Rightarrow> string \<Rightarrow> 'b error + 'v cell list" where
  "getitem_to_list df key =
     (case filter (\<lambda>(c, xs). c = key) (cols df) of
        [] \<Rightarrow> Inl (KeyError key)
      | [(c, xs)] \<Rightarrow> Inr xs
      | _ \<Rightarrow> Inl (LibraryError ''AttributeError''))"

section \<open>The ERDDAP client and the network\<close>

text \<open>
  The fields of erddapy's \<^verbatim>\<open>ERDDAP\<close> object that the module reads or writes.
\<close>

record 'b erddap =
  e_server :: string
  e_protocol :: string
  e_variables :: "string list option"
  e_dataset_id :: "string option"
  e_constraints :: "(string \<times> 'b) list option"

record 'b bounds =
  min_lat :: 'b
  max_lat :: 'b
  min_lon :: 'b
  max_lon :: 'b
  min_time :: 'b
  max_time :: 'b

text \<open>
  A request that goes out to the network: the catalog search (\<^verbatim>\<open>urlopen(url)\<close>) or a
  table download (the client's \<^verbatim>\<open>to_pandas\<close>, whose request is fixed by the client's
  fields at the time of the call). The log of requests is threaded through every
  operation, so that "no fetch" is "the log did not grow".
\<close>

datatype 'b request = SearchReq string | TableReq "'b erddap"

text \<open>
  What erddapy, httpx and pandas' CSV reader do is not part of this repository: an
  environment supplies it. The URL builders are functions of the client's fields and
  their arguments; \<open>urlopen\<close> and \<open>erddap_to_pandas\<close> may answer differently
  depending on the requests made so far, and may raise. \<open>read_csv\<close> is
  \<^verbatim>\<open>pd.read_csv(data)[["Title", "Institution", "Dataset ID"]]\<close>: the three selected
  columns, row by row. \<open>erddap_to_pandas\<close> takes the keyword arguments
  \<^verbatim>\<open>index_col\<close> and \<^verbatim>\<open>parse_dates\<close>.
\<close>

record ('b, 'v) env =
  get_search_url :: "'b erddap \<Rightarrow> string \<Rightarrow> string \<Rightarrow> 'b bounds \<Rightarrow> string"
  get_info_url :: "'b erddap \<Rightarrow> string \<Rightarrow> string \<Rightarrow> string"
  get_download_url :: "'b erddap \<Rightarrow> string"
  urlopen :: "'b request list \<Rightarrow> string \<Rightarrow> 'b error + string"
  read_csv :: "string \<Rightarrow> 'b error + (string \<times> string \<times> string) list"
  erddap_to_pandas ::
    "'b request list \<Rightarrow> 'b erddap \<Rightarrow> string option \<Rightarrow> bool \<Rightarrow> 'b error + 'v frame"

section \<open>\<^verbatim>\<open>GliderDataFetcher\<close>\<close>

text \<open>
  A row of the catalog table: the three columns read from the search result and the
  \<^verbatim>\<open>info_url\<close> column, \<open>None\<close> while the table has no such column.
\<close>

record entry =
  Title :: string
  Institution :: string
  Dataset_ID :: string
  info_url :: "string option"

record 'b GliderDataFetcher =
  server :: string
  fetcher :: "'b erddap"
  datasets :: "entry list option"
  query_url :: "string option"

definition query_constraints :: "'b bounds \<Rightarrow> (string \<times> 'b) list" where
  "query_constraints b =
     [(''time>='', min_time b), (''time<='', max_time b),
      (''latitude>='', min_lat b), (''latitude<='', max_lat b),
      (''longitude>='', min_lon b), (''longitude<='', max_lon b)]"

text \<open>
  \<^verbatim>\<open>not self.datasets\<close> asks for the truth value of \<^verbatim>\<open>self.datasets\<close>. \<^verbatim>\<open>None\<close> is
  false; a pandas DataFrame has no truth value: its \<^verbatim>\<open>__bool__\<close> raises this
  ValueError, whatever the table holds.
\<close>

definition dataframe_truth_value :: string where
  "dataframe_truth_value =
     ''The truth value of a DataFrame is ambiguous. Use a.empty, a.bool(), a.item(), a.any() or a.all().''"

definition no_datasets_found :: string where
  "no_datasets_found =
     ''Error, no datasets found in supplied range. Try relaxing your constraints: ''"

text \<open>
  The first statement of \<^verbatim>\<open>query\<close>:
  \<^verbatim>\<open>self.fetcher.constraints = {"time>=": min_time, ...}\<close>.
\<close>

definition set_constraints :: "'b GliderDataFetcher \<Rightarrow> 'b bounds \<Rightarrow> 'b GliderDataFetcher" where
  "set_constraints g b = g\<lparr>fetcher := (fetcher g)\<lparr>e_constraints := Some (query_constraints b)\<rparr>\<rparr>"

text \<open>
  \<^verbatim>\<open>query(min_lat, max_lat, min_lon, max_lon, min_time, max_time, delayed)\<close>. The result
  is the log of requests, the object as the call leaves it (also when it raises) and
  what the call returns or raises.
\<close>

definition query ::
  "('b, 'v) env \<Rightarrow> 'b request list \<Rightarrow> 'b GliderDataFetcher \<Rightarrow> 'b bounds \<Rightarrow> bool \<Rightarrow>
     'b request list \<times> 'b GliderDataFetcher \<times> ('b error + entry list)" where
  "query env log g b delayed =
     (let g1 = set_constraints g b
      in case datasets g1 of
           Some df \<Rightarrow> (log, g1, Inl (ValueError dataframe_truth_value))
         | None \<Rightarrow>
             (let url = get_search_url env (fetcher g1) ''glider'' ''csv'' b;
                  g2 = g1\<lparr>query_url := Some url\<rparr>;
                  log2 = log @ [SearchReq url]
              in case urlopen env log url of
                   Inl err \<Rightarrow>
                     (case err of
                        HTTPError m \<Rightarrow>
                          (log2, g2, Inl (Exception_from no_datasets_found (query_constraints b) err))
                      | _ \<Rightarrow> (log2, g2, Inl err))
                 | Inr data \<Rightarrow>
                     (case read_csv env data of
                        Inl err \<Rightarrow> (log2, g2, Inl err)
                      | Inr rows \<Rightarrow>
                          (let df = map (\<lambda>(t, i, d). \<lparr>Title = t, Institution = i, Dataset_ID = d,
                                                     info_url = None\<rparr>) rows;
                               df' = (if \<not> delayed
                                      then map (\<lambda>x. x\<lparr>info_url :=
                                                   Some (get_info_url env (fetcher g2) (Dataset_ID x) ''html'')\<rparr>)
                                             (filter (\<lambda>x. \<not> endswith (Dataset_ID x) ''delayed'') df)
                                      else df)
                           in (log2, g2\<lparr>datasets := Some df'\<rparr>, Inr df')))))"

text \<open>
  \<^verbatim>\<open>self.fetcher.dataset_id = dataset_id\<close>, the first statement of the loop of
  \<^verbatim>\<open>to_pandas\<close>, and the requests the loop sends for a list of ids.
\<close>

definition set_dataset_id :: "'b GliderDataFetcher \<Rightarrow> string \<Rightarrow> 'b GliderDataFetcher" where
  "set_dataset_id g dataset_id = g\<lparr>fetcher := (fetcher g)\<lparr>e_dataset_id := Some dataset_id\<rparr>\<rparr>"

definition table_requests :: "'b GliderDataFetcher \<Rightarrow> string list \<Rightarrow> 'b request list" where
  "table_requests g ids = map (\<lambda>i. TableReq (fetcher (set_dataset_id g i))) ids"

text \<open>
  The loop of \<^verbatim>\<open>to_pandas\<close> over \<^verbatim>\<open>self.datasets["Dataset ID"]\<close>: each id becomes the
  client's active id, its table is fetched and standardised and appended to
  \<^verbatim>\<open>df_all\<close>. A fetch that raises ends the loop with the object as it then is. The
  table a fetch returns is a new object that nothing else refers to, so
  \<^verbatim>\<open>standardise_df\<close> is applied to it as a function of its value.
\<close>

fun fetch_each ::
  "('b, 'v) env \<Rightarrow> rename_table \<Rightarrow> 'b request list \<Rightarrow> 'b GliderDataFetcher \<Rightarrow> string list \<Rightarrow>
     'v frame list \<Rightarrow> 'b request list \<times> 'b GliderDataFetcher \<times> ('b error + 'v frame list)" where
  "fetch_each env ren log g [] df_all = (log, g, Inr df_all)"
| "fetch_each env ren log g (dataset_id # ids) df_all =
     (let g1 = set_dataset_id g dataset_id;
          log1 = log @ [TableReq (fetcher g1)]
      in case erddap_to_pandas env log (fetcher g1) (Some ''time (UTC)'') True of
           Inl err \<Rightarrow> (log1, g1, Inl err)
         | Inr df \<Rightarrow>
             (let dataset_url = split_query_head (get_download_url env (fetcher g1));
                  df' = standardise_df ren df dataset_url
              in fetch_each env ren log1 g1 ids (df_all @ [df'])))"

text \<open>
  The tables the loop collects for the ids \<open>ids\<close> when the downloads return \<open>raws\<close>:
  each raw table standardised with the download URL of its own dataset, cut at the
  question mark.
\<close>

definition standardised_tables ::
  "('b, 'v) env \<Rightarrow> rename_table \<Rightarrow> 'b GliderDataFetcher \<Rightarrow> string list \<Rightarrow> 'v frame list \<Rightarrow>
     'v frame list" where
  "standardised_tables env ren g ids raws =
     map (\<lambda>(i, raw). standardise_df ren raw
            (split_query_head (get_download_url env (fetcher (set_dataset_id g i)))))
       (zip ids raws)"

definition must_provide :: "string option \<Rightarrow> string" where
  "must_provide d =
     ''Must provide a '' @ py_str d @ '' or '' @ [char_of (96 :: nat)] @ ''query''
       @ [char_of (96 :: nat)] @ '' terms to download data.''"

definition to_pandas ::
  "('b, 'v) env \<Rightarrow> rename_table \<Rightarrow> 'b request list \<Rightarrow> 'b GliderDataFetcher \<Rightarrow>
     'b request list \<times> 'b GliderDataFetcher \<times> ('b error + 'v frame)" where
  "to_pandas env ren log g =
     (if truthy (e_dataset_id (fetcher g))
      then (case erddap_to_pandas env log (fetcher g) (Some ''time (UTC)'') True of
              Inl err \<Rightarrow> (log @ [TableReq (fetcher g)], g, Inl err)
            | Inr df \<Rightarrow>
                (log @ [TableReq (fetcher g)], g,
                 Inr (standardise_df ren df (split_query_head (get_download_url env (fetcher g))))))
      else (case datasets g of
              Some cat \<Rightarrow>
                (case fetch_each env ren log g (map Dataset_ID cat) [] of
                   (log', g', Inl err) \<Rightarrow> (log', g', Inl err)
                 | (log', g', Inr df_all) \<Rightarrow> (log', g', pd_concat df_all))
            | None \<Rightarrow> (log, g, Inl (ValueError (must_provide (e_dataset_id (fetcher g)))))))"

section \<open>\<^verbatim>\<open>DatasetList\<close>\<close>

record ('b, 'v) DatasetList =
  e :: "'b erddap"
  dataset_ids :: "'v cell list option"

definition get_ids ::
  "('b, 'v) env \<Rightarrow> 'b request list \<Rightarrow> ('b, 'v) DatasetList \<Rightarrow>
     'b request list \<times> ('b, 'v) DatasetList \<times> ('b error + 'v cell list)" where
  "get_ids env log d =
     (if e_server (e d) = ''https://gliders.ioos.us/erddap''
      then (let d1 = d\<lparr>e := (e d)\<lparr>e_dataset_id := Some ''allDatasets''\<rparr>\<rparr>;
                log1 = log @ [TableReq (e d1)]
            in case erddap_to_pandas env log (e d1) None False of
                 Inl err \<Rightarrow> (log1, d1, Inl err)
               | Inr df \<Rightarrow>
                   (case getitem_to_list df ''datasetID'' of
                      Inl err \<Rightarrow> (log1, d1, Inl err)
                    | Inr ids \<Rightarrow>
                        (if Str ''allDatasets'' \<in> set ids
                         then (log1, d1\<lparr>dataset_ids := Some (remove1 (Str ''allDatasets'') ids)\<rparr>,
                               Inr (remove1 (Str ''allDatasets'') ids))
                         else (log1, d1, Inl (ValueError ''list.remove(x): x not in list'')))))
      else (log, d, Inl (ValueError (''The '' @ e_server (e d) @ '' does not supported this operation.''))))"

section \<open>Sample data\<close>

text \<open>
  A rename table, a server and a freshly constructed fetcher, for evaluating the
  operations on concrete inputs. Bounds are written as text.
\<close>

definition sample_rename :: rename_table where
  "sample_rename = [''temperature (celsius)'' \<mapsto> ''temperature'', ''salinity (1)'' \<mapsto> ''salinity'']"

definition sample_bounds :: "string bounds" where
  "sample_bounds = \<lparr>min_lat = ''30'', max_lat = ''35'', min_lon = ''-75'', max_lon = ''-70'',
                     min_time = ''2020-01-01'', max_time = ''2020-02-01''\<rparr>"

definition other_bounds :: "string bounds" where
  "other_bounds = \<lparr>min_lat = ''10'', max_lat = ''15'', min_lon = ''-75'', max_lon = ''-70'',
                    min_time = ''2021-01-01'', max_time = ''2021-02-01''\<rparr>"

definition sample_client :: "string erddap" where
  "sample_client = \<lparr>e_server = ''https://gliders.ioos.us/erddap'', e_protocol = ''tabledap'',
                     e_variables = Some [''temperature'', ''salinity'', ''time''],
                     e_dataset_id = None, e_constraints = None\<rparr>"

definition new_fetcher :: "string GliderDataFetcher" where
  "new_fetcher = \<lparr>server = ''https://gliders.ioos.us/erddap'', fetcher = sample_client,
                   datasets = None, query_url = None\<rparr>"

definition table_ru29 :: "int frame" where
  "table_ru29 = \<lparr>cols = [(''Temperature (Celsius)'', [Val 10, Val 11])],
                  index_name = Some ''time (UTC)'', index = [Val 1, Val 2]\<rparr>"

definition table_ru29_delayed :: "int frame" where
  "table_ru29_delayed = \<lparr>cols = [(''salinity (1)'', [Val 35])],
                          index_name = Some ''time (UTC)'', index = [Val 3]\<rparr>"

definition table_all_datasets :: "int frame" where
  "table_all_datasets = \<lparr>cols = [(''datasetID'', [Str ''allDatasets'', Str ''ru29''])],
                          index_name = None, index = [Val 0, Val 1]\<rparr>"

definition sample_env :: "(string, int) env" where
  "sample_env =
     \<lparr>get_search_url = (\<lambda>c s r b. e_server c @ ''/search/advanced.'' @ r @ ''?searchFor='' @ s),
      get_info_url = (\<lambda>c i r. e_server c @ ''/info/'' @ i @ ''/index.'' @ r),
      get_download_url = (\<lambda>c. e_server c @ ''/tabledap/'' @ py_str (e_dataset_id c) @ ''.html?time''),
      urlopen = (\<lambda>log u. Inr ''csv''),
      read_csv = (\<lambda>d. Inr [(''T1'', ''I1'', ''ru29''), (''T2'', ''I2'', ''ru29-delayed'')]),
      erddap_to_pandas = (\<lambda>log c ic pd.
         if e_dataset_id c = Some ''allDatasets'' then Inr table_all_datasets
         else if e_dataset_id c = Some ''ru29'' then Inr table_ru29
         else if e_dataset_id c = Some ''ru29-delayed'' then Inr table_ru29_delayed
         else Inl (LibraryError ''HTTP 404''))\<rparr>"

text \<open>The same server when the catalog search fails with an HTTP error.\<close>

definition failing_env :: "(string, int) env" where
  "failing_env = sample_env\<lparr>urlopen := (\<lambda>log u. Inl (HTTPError ''503 Service Unavailable''))\<rparr>"

definition sample_lister :: "(string, int) DatasetList" where
  "sample_lister = \<lparr>e = sample_client, dataset_ids = None\<rparr>"

text \<open>
  A rename table with one entry and a table whose label matches it only after
  lower-casing.
\<close>

definition lat_rename :: rename_table where
  "lat_rename = [''lat (n)'' \<mapsto> ''lat'']"

definition mixed_case_table :: "int frame" where
  "mixed_case_table = \<lparr>cols = [(''Lat (N)'', [Val 1])], index_name = None, index = [Val 0]\<rparr>"


text \<open>
  A fetcher holding the catalog that \<^verbatim>\<open>query(..., delayed=True)\<close> finds on the sample
  server, a fetcher holding a catalog of no rows, and a lister for another server.
\<close>

definition sample_catalog :: "entry list" where
  "sample_catalog =
     [\<lparr>Title = ''T1'', Institution = ''I1'', Dataset_ID = ''ru29'', info_url = None\<rparr>,
      \<lparr>Title = ''T2'', Institution = ''I2'', Dataset_ID = ''ru29-delayed'', info_url = None\<rparr>]"

definition catalog_fetcher :: "string GliderDataFetcher" where
  "catalog_fetcher = new_fetcher\<lparr>datasets := Some sample_catalog\<rparr>"

definition empty_catalog_fetcher :: "string GliderDataFetcher" where
  "empty_catalog_fetcher = new_fetcher\<lparr>datasets := Some []\<rparr>"

definition other_lister :: "(string, int) DatasetList" where
  "other_lister = \<lparr>e = sample_client\<lparr>e_server := ''https://example.org/erddap''\<rparr>,
                    dataset_ids = None\<rparr>"

text \<open>The first \<^verbatim>\<open>query\<close> on the fresh fetcher, with the sample bounds.\<close>

definition first_query ::
  "string request list \<times> string GliderDataFetcher \<times> (string error + entry list)" where
  "first_query = query sample_env [] new_fetcher sample_bounds False"

section \<open>Properties\<close>

subsection \<open>\<^verbatim>\<open>query\<close>\<close>

text \<open>
  C1. The claim: on a fetcher whose catalog has been discovered, a second \<^verbatim>\<open>query()\<close>
  returns that catalog unchanged and searches no more. The code tests
  \<^verbatim>\<open>if not self.datasets:\<close>, and the catalog is a pandas DataFrame, which has no truth
  value: the second call stores the new constraints, sends no request and raises
  ValueError instead of returning the catalog.
\<close>

theorem query_again_raises:
  assumes "datasets g = Some cat"
  shows "query env log g b delayed =
           (log, set_constraints g b, Inl (ValueError dataframe_truth_value))"
  using assms by (simp add: query_def Let_def set_constraints_def)

theorem query_again_raises_witness:
  "datasets (fst (snd first_query)) =
     Some [\<lparr>Title = ''T1'', Institution = ''I1'', Dataset_ID = ''ru29'',
            info_url = Some ''https://gliders.ioos.us/erddap/info/ru29/index.html''\<rparr>]
   \<and> query sample_env (fst first_query) (fst (snd first_query)) other_bounds False =
       (fst first_query, set_constraints (fst (snd first_query)) other_bounds,
        Inl (ValueError dataframe_truth_value))"
proof -
  have d: "datasets (fst (snd first_query)) =
     Some [\<lparr>Title = ''T1'', Institution = ''I1'', Dataset_ID = ''ru29'',
            info_url = Some ''https://gliders.ioos.us/erddap/info/ru29/index.html''\<rparr>]"
    by (simp add: first_query_def query_def Let_def set_constraints_def sample_env_def
        new_fetcher_def sample_client_def endswith_def)
  from query_again_raises [OF d] d show ?thesis by simp
qed

text \<open>
  C7. When the catalog search fails with an HTTP error, \<^verbatim>\<open>query()\<close> raises an
  \<^verbatim>\<open>Exception\<close> chained to that error whose message interpolates the constraints just
  stored on the client; the log has grown by the one search request, so nothing was
  retried.
\<close>

theorem query_http_error:
  assumes "datasets g = None"
    and "urlopen env log (get_search_url env (fetcher (set_constraints g b)) ''glider'' ''csv'' b)
           = Inl (HTTPError m)"
  shows "query env log g b delayed =
           (log @ [SearchReq (get_search_url env (fetcher (set_constraints g b)) ''glider'' ''csv'' b)],
            (set_constraints g b)\<lparr>query_url :=
               Some (get_search_url env (fetcher (set_constraints g b)) ''glider'' ''csv'' b)\<rparr>,
            Inl (Exception_from no_datasets_found (query_constraints b) (HTTPError m)))
         \<and> e_constraints (fetcher (set_constraints g b)) = Some (query_constraints b)"
  using assms by (simp add: query_def Let_def set_constraints_def)

theorem query_http_error_witness:
  "fst (query failing_env [] new_fetcher sample_bounds False) =
     [SearchReq ''https://gliders.ioos.us/erddap/search/advanced.csv?searchFor=glider'']
   \<and> snd (snd (query failing_env [] new_fetcher sample_bounds False)) =
       Inl (Exception_from no_datasets_found
              [(''time>='', ''2020-01-01''), (''time<='', ''2020-02-01''),
               (''latitude>='', ''30''), (''latitude<='', ''35''),
               (''longitude>='', ''-75''), (''longitude<='', ''-70'')]
              (HTTPError ''503 Service Unavailable''))"
  using query_http_error [of new_fetcher failing_env "[]" sample_bounds
      "''503 Service Unavailable''" False]
  by (simp add: failing_env_def sample_env_def new_fetcher_def sample_client_def
      set_constraints_def query_constraints_def sample_bounds_def)

subsection \<open>\<^verbatim>\<open>to_pandas\<close>\<close>

text \<open>
  C3. With no dataset id and no catalog, \<^verbatim>\<open>to_pandas()\<close> raises ValueError with the
  message of the code's f-string (the unset id prints as \<^verbatim>\<open>None\<close>); the log of
  requests and the fetcher are as before the call.
\<close>

theorem to_pandas_unconfigured:
  assumes "e_dataset_id (fetcher g) = None" and "datasets g = None"
  shows "to_pandas env ren log g =
           (log, g, Inl (ValueError (''Must provide a None or '' @ [char_of (96 :: nat)] @ ''query''
              @ [char_of (96 :: nat)] @ '' terms to download data.'')))"
  using assms by (simp add: to_pandas_def truthy_def must_provide_def py_str_def)

theorem to_pandas_unconfigured_witness:
  "to_pandas sample_env sample_rename [] new_fetcher =
     ([], new_fetcher, Inl (ValueError (''Must provide a None or '' @ [char_of (96 :: nat)] @ ''query''
              @ [char_of (96 :: nat)] @ '' terms to download data.'')))"
  using to_pandas_unconfigured [of new_fetcher sample_env sample_rename "[]"]
  by (simp add: new_fetcher_def sample_client_def)

text \<open>
  C10. With no dataset id and a catalog of zero rows, the loop of \<^verbatim>\<open>to_pandas()\<close>
  collects nothing and \<^verbatim>\<open>pd.concat([])\<close> raises: the call ends in a ValueError, not
  in an empty table, and sends no request.
\<close>

theorem to_pandas_empty_catalog:
  assumes "\<not> truthy (e_dataset_id (fetcher g))" and "datasets g = Some []"
  shows "to_pandas env ren log g = (log, g, Inl (ValueError ''No objects to concatenate''))"
  using assms by (simp add: to_pandas_def pd_concat_def)

theorem to_pandas_empty_catalog_witness:
  "to_pandas sample_env sample_rename [] (new_fetcher\<lparr>datasets := Some []\<rparr>) =
     ([], new_fetcher\<lparr>datasets := Some []\<rparr>, Inl (ValueError ''No objects to concatenate''))"
  using to_pandas_empty_catalog [of "new_fetcher\<lparr>datasets := Some []\<rparr>" sample_env sample_rename "[]"]
  by (simp add: new_fetcher_def sample_client_def truthy_def)

subsection \<open>Strings\<close>

lemma lower_char_idem: "lower_char (lower_char c) = lower_char c"
  by (simp add: lower_char_def Let_def)

lemma endswith_iff: "endswith s suf \<longleftrightarrow> (\<exists>p. s = p @ suf)"
proof
  assume "endswith s suf"
  then have "s = take (length s - length suf) s @ suf"
    by (metis append_take_drop_id endswith_def)
  then show "\<exists>p. s = p @ suf" ..
next
  assume "\<exists>p. s = p @ suf"
  then show "endswith s suf" by (auto simp: endswith_def)
qed

subsection \<open>The catalog of \<^verbatim>\<open>query\<close>\<close>

lemma catalog_ids_kept:
  "map (\<lambda>x. Dataset_ID x)
      (filter (\<lambda>x. \<not> endswith (Dataset_ID x) suf)
         (map (\<lambda>(t, i, d). \<lparr>Title = t, Institution = i, Dataset_ID = d, info_url = None\<rparr>) rows))
   = filter (\<lambda>d. \<not> endswith d suf) (map (\<lambda>(t, i, d). d) rows)"
  by (induction rows) auto

lemma catalog_ids_all:
  "map Dataset_ID (map (\<lambda>(t, i, d). \<lparr>Title = t, Institution = i, Dataset_ID = d, info_url = None\<rparr>) rows)
   = map (\<lambda>(t, i, d). d) rows"
  by (induction rows) auto

text \<open>
  C2. On a fetcher without a catalog, when the search answers and its CSV parses into
  \<open>rows\<close>: with \<^verbatim>\<open>delayed=False\<close> the catalog returned (and stored) holds exactly the
  ids of \<open>rows\<close> that do not end in "delayed", in their order, each with the info URL
  the client computes for it; with \<^verbatim>\<open>delayed=True\<close> it holds every id of \<open>rows\<close>,
  those ending in "delayed" too, and no info URL.
\<close>

theorem query_delayed_filter:
  assumes "datasets g = None"
    and "urlopen env log (get_search_url env (fetcher (set_constraints g b)) ''glider'' ''csv'' b)
           = Inr data"
    and "read_csv env data = Inr rows"
  shows "(\<exists>log' g' cat. query env log g b False = (log', g', Inr cat) \<and> datasets g' = Some cat
            \<and> map Dataset_ID cat = filter (\<lambda>d. \<not> endswith d ''delayed'') (map (\<lambda>(t, i, d). d) rows)
            \<and> list_all (\<lambda>x. \<not> endswith (Dataset_ID x) ''delayed''
                  \<and> info_url x = Some (get_info_url env (fetcher g') (Dataset_ID x) ''html'')) cat)
       \<and> (\<exists>log' g' cat. query env log g b True = (log', g', Inr cat) \<and> datasets g' = Some cat
            \<and> map Dataset_ID cat = map (\<lambda>(t, i, d). d) rows
            \<and> list_all (\<lambda>x. info_url x = None) cat)"
proof -
  have d: "datasets (set_constraints g b) = None"
    using assms(1) by (simp add: set_constraints_def)
  have a: "\<exists>log' g' cat. query env log g b False = (log', g', Inr cat) \<and> datasets g' = Some cat
            \<and> map Dataset_ID cat = filter (\<lambda>d. \<not> endswith d ''delayed'') (map (\<lambda>(t, i, d). d) rows)
            \<and> list_all (\<lambda>x. \<not> endswith (Dataset_ID x) ''delayed''
                  \<and> info_url x = Some (get_info_url env (fetcher g') (Dataset_ID x) ''html'')) cat"
    using d assms(2,3)
    by (simp add: query_def Let_def comp_def catalog_ids_kept list_all_iff)
  have b: "\<exists>log' g' cat. query env log g b True = (log', g', Inr cat) \<and> datasets g' = Some cat
            \<and> map Dataset_ID cat = map (\<lambda>(t, i, d). d) rows
            \<and> list_all (\<lambda>x. info_url x = None) cat"
    using d assms(2,3)
    by (auto simp add: query_def Let_def catalog_ids_all list_all_iff)
  from a b show ?thesis by blast
qed

theorem query_delayed_filter_witness:
  "snd (snd (query sample_env [] new_fetcher sample_bounds False)) =
     Inr [\<lparr>Title = ''T1'', Institution = ''I1'', Dataset_ID = ''ru29'',
           info_url = Some ''https://gliders.ioos.us/erddap/info/ru29/index.html''\<rparr>]
   \<and> snd (snd (query sample_env [] new_fetcher sample_bounds True)) =
       Inr [\<lparr>Title = ''T1'', Institution = ''I1'', Dataset_ID = ''ru29'', info_url = None\<rparr>,
            \<lparr>Title = ''T2'', Institution = ''I2'', Dataset_ID = ''ru29-delayed'', info_url = None\<rparr>]"
  using query_delayed_filter [of new_fetcher sample_env "[]" sample_bounds "''csv''"
      "[(''T1'', ''I1'', ''ru29''), (''T2'', ''I2'', ''ru29-delayed'')]"]
  by (simp add: query_def Let_def set_constraints_def sample_env_def new_fetcher_def
      sample_client_def endswith_def)

subsection \<open>\<^verbatim>\<open>standardise_df\<close>\<close>

lemma str_lower_idem: "str_lower (str_lower s) = str_lower s"
  by (simp add: str_lower_def lower_char_idem)

lemma str_lower_dataset_url: "str_lower ''dataset_url'' = ''dataset_url''"
  by (simp add: str_lower_def lower_char_def)

lemma cols_relabelled:
  "cols (index_rename n (rename_columns ren (columns_str_lower df))) =
     map (\<lambda>(c, xs). (rename_label ren (str_lower c), xs)) (cols df)"
  by (simp add: index_rename_def rename_columns_def columns_str_lower_def comp_def case_prod_unfold)

lemma columns_relabelled:
  "columns (index_rename n (rename_columns ren (columns_str_lower df))) =
     map (\<lambda>c. rename_label ren (str_lower c)) (columns df)"
  by (simp add: columns_def cols_relabelled comp_def case_prod_unfold)

lemma nrows_relabelled: "nrows (index_rename n (rename_columns ren (columns_str_lower df))) = nrows df"
  by (simp add: nrows_def index_rename_def rename_columns_def columns_str_lower_def)

lemma columns_setitem:
  "columns (setitem df key v) = (if key \<in> set (columns df) then columns df else columns df @ [key])"
  by (auto simp: setitem_def columns_def case_prod_unfold intro!: map_cong)

lemma index_setitem: "index (setitem df key v) = index df"
  by (simp add: setitem_def)

lemma index_name_setitem: "index_name (setitem df key v) = index_name df"
  by (simp add: setitem_def)

lemma nrows_setitem: "nrows (setitem df key v) = nrows df"
  by (simp add: nrows_def index_setitem)

lemma setitem_cells:
  "(c, xs) \<in> set (cols (setitem df key v)) \<Longrightarrow> c = key \<Longrightarrow> xs = replicate (nrows df) v"
  by (force simp: setitem_def columns_def split: if_splits)

lemma overwrite_others:
  "filter (\<lambda>(c, xs). c \<noteq> key) (map (\<lambda>(c, xs). if c = key then (c, r) else (c, xs)) l)
     = filter (\<lambda>(c, xs). c \<noteq> key) l"
  by (induction l) auto

lemma setitem_others:
  "filter (\<lambda>(c, xs). c \<noteq> key) (cols (setitem df key v)) = filter (\<lambda>(c, xs). c \<noteq> key) (cols df)"
  by (simp add: setitem_def overwrite_others)

text \<open>
  C5. The claim: the output's column names equal the input's names after the rename
  substitution and lower-casing, lower-casing coming after the renaming. The code
  lower-cases first and renames second, so a label is renamed when its lower-cased form
  is a key of the table, and the renamed label is not lower-cased again; and the output
  has one name more, "dataset_url". For the table with the one column "Lat (N)" and
  the rename table "lat (n)" \<open>\<mapsto>\<close> "lat" the output's names are "lat" and
  "dataset_url"; renaming and then lower-casing the input's names gives "lat (n)",
  lower-casing and then renaming them gives "lat" alone.
\<close>

theorem standardise_df_columns_counterexample:
  "columns (standardise_df lat_rename mixed_case_table ''u'') = [''lat'', ''dataset_url'']
   \<and> map str_lower (map (rename_label lat_rename) (columns mixed_case_table)) = [''lat (n)'']
   \<and> map (rename_label lat_rename) (map str_lower (columns mixed_case_table)) = [''lat'']"
  by code_simp

text \<open>
  C5, as the code has it. The output's column names are the input's names lower-cased
  and then renamed, in the input's order, followed by "dataset_url" when no column has
  that name by then; a column "dataset_url" is present; every column of that name holds
  the source URL in each row; the columns of other names keep their cells and their
  order; the index is the input's.
\<close>

theorem standardise_df_columns:
  "columns (standardise_df ren df url) =
     (let ns = map (\<lambda>c. rename_label ren (str_lower c)) (columns df)
      in if ''dataset_url'' \<in> set ns then ns else ns @ [''dataset_url''])
   \<and> ''dataset_url'' \<in> set (columns (standardise_df ren df url))
   \<and> list_all (\<lambda>(c, xs). c = ''dataset_url'' \<longrightarrow> xs = replicate (nrows df) (Str url))
        (cols (standardise_df ren df url))
   \<and> filter (\<lambda>(c, xs). c \<noteq> ''dataset_url'') (cols (standardise_df ren df url)) =
       filter (\<lambda>(c, xs). c \<noteq> ''dataset_url'')
         (map (\<lambda>(c, xs). (rename_label ren (str_lower c), xs)) (cols df))
   \<and> index (standardise_df ren df url) = index df"
proof -
  have 1: "columns (standardise_df ren df url) =
     (let ns = map (\<lambda>c. rename_label ren (str_lower c)) (columns df)
      in if ''dataset_url'' \<in> set ns then ns else ns @ [''dataset_url''])"
    by (simp add: standardise_df_def columns_setitem columns_relabelled Let_def)
  have 2: "''dataset_url'' \<in> set (columns (standardise_df ren df url))"
    unfolding 1 by (simp add: Let_def)
  have 3: "list_all (\<lambda>(c, xs). c = ''dataset_url'' \<longrightarrow> xs = replicate (nrows df) (Str url))
        (cols (standardise_df ren df url))"
    unfolding list_all_iff standardise_df_def
    using setitem_cells [where key = "''dataset_url''"]
    by (fastforce simp: nrows_relabelled)
  have 4: "filter (\<lambda>(c, xs). c \<noteq> ''dataset_url'') (cols (standardise_df ren df url)) =
       filter (\<lambda>(c, xs). c \<noteq> ''dataset_url'')
         (map (\<lambda>(c, xs). (rename_label ren (str_lower c), xs)) (cols df))"
    by (simp only: standardise_df_def setitem_others cols_relabelled)
  have 5: "index (standardise_df ren df url) = index df"
    by (simp add: standardise_df_def index_setitem index_rename_def rename_columns_def
        columns_str_lower_def)
  from 1 2 3 4 5 show ?thesis by blast
qed

theorem standardise_df_columns_witness:
  "columns (standardise_df sample_rename table_ru29 ''u'') = [''temperature'', ''dataset_url'']
   \<and> cols (standardise_df sample_rename table_ru29 ''u'') =
       [(''temperature'', [Val 10, Val 11]), (''dataset_url'', [Str ''u'', Str ''u''])]
   \<and> index (standardise_df sample_rename table_ru29 ''u'') = [Val 1, Val 2]"
proof -
  have names: "map (\<lambda>c. rename_label sample_rename (str_lower c)) (columns table_ru29)
      = [''temperature'']"
    by code_simp
  have cells: "cols (standardise_df sample_rename table_ru29 ''u'') =
       [(''temperature'', [Val 10, Val 11]), (''dataset_url'', [Str ''u'', Str ''u''])]"
    by code_simp
  have ix: "index table_ru29 = [Val 1, Val 2]"
    by (simp add: table_ru29_def)
  from standardise_df_columns [of sample_rename table_ru29 "''u''"] names cells ix
  show ?thesis by (simp add: Let_def)
qed

lemma setitem_fixed:
  assumes "key \<in> set (columns df)"
    and "\<forall>(c, xs) \<in> set (cols df). c = key \<longrightarrow> xs = replicate (nrows df) v"
  shows "setitem df key v = df"
proof -
  have "map (\<lambda>(c, xs). if c = key then (c, replicate (nrows df) v) else (c, xs)) (cols df) = cols df"
    using assms(2) by (induction "cols df") (auto intro!: map_idI)
  then show ?thesis using assms(1) by (simp add: setitem_def)
qed

lemma relabel_fixed:
  assumes "\<forall>c \<in> set (columns df). rename_label ren (str_lower c) = c"
  shows "rename_columns ren (columns_str_lower df) = df"
proof -
  have "map (\<lambda>(c, xs). (rename_label ren (str_lower c), xs)) (cols df) = cols df"
    using assms by (auto simp: columns_def intro!: map_idI)
  then show ?thesis
    by (simp add: rename_columns_def columns_str_lower_def comp_def case_prod_unfold)
qed

lemma label_stable:
  assumes "\<forall>k v. ren k = Some v \<longrightarrow> str_lower k = k \<longrightarrow> rename_label ren (str_lower v) = v"
  shows "rename_label ren (str_lower (rename_label ren (str_lower c))) = rename_label ren (str_lower c)"
proof (cases "ren (str_lower c)")
  case None
  then show ?thesis by (simp add: rename_label_def str_lower_idem)
next
  case (Some v)
  with assms have "rename_label ren (str_lower v) = v"
    using str_lower_idem by blast
  with Some show ?thesis by (simp add: rename_label_def)
qed

text \<open>
  C8. Standardising twice with the same URL is standardising once, for every table and
  URL. The rename table is the module constant \<^verbatim>\<open>server_parameter_rename\<close> of
  \<^verbatim>\<open>gliderpy/servers.py\<close>, which the function reads and is not given; the theorem
  holds for every value of that constant that leaves its own canonical names alone: for
  each entry whose key is lower-case, the entry's value lower-cased and renamed is that
  value again, and "dataset_url" is not renamed to another name. Then the second pass
  finds the names already lower-case and already renamed and overwrites the
  "dataset_url" column with the same value.
\<close>

theorem standardise_df_idempotent:
  assumes "\<forall>k v. ren k = Some v \<longrightarrow> str_lower k = k \<longrightarrow> rename_label ren (str_lower v) = v"
    and "rename_label ren ''dataset_url'' = ''dataset_url''"
  shows "standardise_df ren (standardise_df ren df url) url = standardise_df ren df url"
proof -
  let ?out = "standardise_df ren df url"
  have labels: "\<forall>c \<in> set (columns ?out). rename_label ren (str_lower c) = c"
    using label_stable [OF assms(1)] assms(2)
    by (auto simp: standardise_df_def columns_setitem columns_relabelled str_lower_dataset_url
        split: if_splits)
  have relabel: "rename_columns ren (columns_str_lower ?out) = ?out"
    by (rule relabel_fixed [OF labels])
  have name: "index_rename ''time'' ?out = ?out"
    by (simp add: standardise_df_def index_rename_def setitem_def rename_columns_def
        columns_str_lower_def)
  have present: "''dataset_url'' \<in> set (columns ?out)"
    by (simp add: standardise_df_def columns_setitem)
  have cells: "\<forall>(c, xs) \<in> set (cols ?out). c = ''dataset_url'' \<longrightarrow>
      xs = replicate (nrows ?out) (Str url)"
    using setitem_cells [where key = "''dataset_url''"]
    by (fastforce simp: standardise_df_def nrows_setitem)
  have "standardise_df ren ?out url = setitem ?out ''dataset_url'' (Str url)"
    by (subst standardise_df_def) (simp only: relabel name)
  then show ?thesis
    by (simp only: setitem_fixed [OF present cells])
qed

theorem standardise_df_idempotent_witness:
  "standardise_df sample_rename (standardise_df sample_rename table_ru29 ''u'') ''u''
     = standardise_df sample_rename table_ru29 ''u''"
proof -
  have canonical: "\<forall>k v. sample_rename k = Some v \<longrightarrow> str_lower k = k \<longrightarrow>
      rename_label sample_rename (str_lower v) = v"
  proof (intro allI impI)
    fix k v
    assume "sample_rename k = Some v"
    then have "v = ''temperature'' \<or> v = ''salinity''"
      by (auto simp: sample_rename_def split: if_splits)
    moreover have "rename_label sample_rename (str_lower ''temperature'') = ''temperature''"
      by code_simp
    moreover have "rename_label sample_rename (str_lower ''salinity'') = ''salinity''"
      by code_simp
    ultimately show "rename_label sample_rename (str_lower v) = v" by auto
  qed
  have url: "rename_label sample_rename ''dataset_url'' = ''dataset_url''"
    by code_simp
  from standardise_df_idempotent [OF canonical url] show ?thesis .
qed






subsection \<open>\<^verbatim>\<open>pd.concat\<close>\<close>

lemma stack_cols_by_label:
  "map fst b = map fst a \<Longrightarrow> distinct (map fst a) \<Longrightarrow>
     stack_cols a b = map (\<lambda>(c, xs). (c, xs @ the (map_of b c))) a"
proof (induction a arbitrary: b)
  case Nil
  then show ?case by (simp add: stack_cols_def)
next
  case (Cons p a)
  obtain c xs where p: "p = (c, xs)" by (cases p)
  from Cons.prems(1) obtain ys b' where b: "b = (c, ys) # b'" and fst: "map fst b' = map fst a"
    by (cases b) (auto simp: p)
  from Cons.prems(2) have dist: "distinct (map fst a)" and fresh: "c \<notin> fst ` set a"
    by (auto simp: p)
  have tail: "stack_cols a b' = map (\<lambda>(c, xs). (c, xs @ the (map_of b' c))) a"
    by (rule Cons.IH [OF fst dist])
  have same: "map (\<lambda>(c', xs'). (c', xs' @ the (map_of b' c'))) a
      = map (\<lambda>(c', xs'). (c', xs' @ the (map_of b c'))) a"
  proof (rule map_cong [OF refl])
    fix x assume "x \<in> set a"
    then have "fst x \<noteq> c" using fresh by auto
    then show "(case x of (c', xs') \<Rightarrow> (c', xs' @ the (map_of b' c')))
        = (case x of (c', xs') \<Rightarrow> (c', xs' @ the (map_of b c')))"
      by (cases x) (simp add: b)
  qed
  have "stack_cols (p # a) b = (c, xs @ ys) # stack_cols a b'"
    by (simp add: stack_cols_def p b)
  then show ?case
    using tail same by (simp add: p b)
qed

lemma fst_stack_cols: "map fst b = map fst a \<Longrightarrow> map fst (stack_cols a b) = map fst a"
proof (induction a arbitrary: b)
  case Nil
  then show ?case by (simp add: stack_cols_def)
next
  case (Cons p a)
  then show ?case by (cases b) (auto simp: stack_cols_def case_prod_unfold)
qed

lemma foldl_stack_cols:
  "\<forall>b \<in> set bs. map fst b = map fst a \<Longrightarrow> distinct (map fst a) \<Longrightarrow>
     foldl stack_cols a bs = map (\<lambda>(c, xs). (c, xs @ concat (map (\<lambda>b. the (map_of b c)) bs))) a"
proof (induction bs arbitrary: a)
  case Nil
  then show ?case by (simp add: case_prod_unfold)
next
  case (Cons b bs)
  from Cons.prems have b: "map fst b = map fst a" by simp
  have step: "stack_cols a b = map (\<lambda>(c, xs). (c, xs @ the (map_of b c))) a"
    by (rule stack_cols_by_label [OF b Cons.prems(2)])
  have keys: "map fst (stack_cols a b) = map fst a"
    by (rule fst_stack_cols [OF b])
  have "foldl stack_cols (stack_cols a b) bs =
      map (\<lambda>(c, xs). (c, xs @ concat (map (\<lambda>b. the (map_of b c)) bs))) (stack_cols a b)"
    using Cons.prems by (intro Cons.IH) (simp_all add: keys)
  then show ?case
    by (simp add: step case_prod_unfold comp_def)
qed

lemma map_of_relabelled:
  "distinct (map fst a) \<Longrightarrow> (c, xs) \<in> set a \<Longrightarrow>
     map_of (map (\<lambda>(c, xs). (c, f c xs)) a) c = Some (f c xs)"
  by (induction a) (auto simp: rev_image_eqI)

lemma column_or_nan_present:
  "c \<in> set (columns t) \<Longrightarrow> column_or_nan t c = the (map_of (cols t) c)"
  by (auto simp: column_or_nan_def columns_def split: option.splits
      dest: weak_map_of_SomeI simp: map_of_eq_None_iff)

lemma pd_concat_columns:
  assumes ok: "(pd_concat fs :: 'b error + 'v frame) = Inr df"
    and dist: "list_all (\<lambda>t. distinct (columns t)) fs"
    and c: "c \<in> set (columns df)"
  shows "map_of (cols df) c = Some (concat (map (\<lambda>t. column_or_nan t c) fs))"
proof (cases fs)
  case Nil
  with ok show ?thesis by (simp add: pd_concat_def)
next
  case (Cons f rest)
  show ?thesis
  proof (cases "list_all (\<lambda>g. columns g = columns f) rest")
    case True
    have df: "cols df = foldl stack_cols (cols f) (map cols rest)"
      using ok True by (auto simp: pd_concat_def Cons Let_def)
    have same: "\<forall>b \<in> set (map cols rest). map fst b = map fst (cols f)"
      using True by (auto simp: list_all_iff columns_def)
    have d: "distinct (map fst (cols f))"
      using dist by (simp add: Cons columns_def)
    have shape: "cols df =
        map (\<lambda>(c, xs). (c, xs @ concat (map (\<lambda>b. the (map_of b c)) (map cols rest)))) (cols f)"
      unfolding df by (rule foldl_stack_cols [OF same d])
    then have "columns df = columns f"
      by (simp add: columns_def case_prod_unfold comp_def)
    with c have "c \<in> set (columns f)"
      by simp
    then have "c \<in> fst ` set (cols f)"
      by (simp add: columns_def)
    then obtain xs where xs: "(c, xs) \<in> set (cols f)"
      by auto
    have every: "\<forall>t \<in> set fs. c \<in> set (columns t)"
      using True c \<open>columns df = columns f\<close> by (auto simp: Cons list_all_iff)
    have cn: "map (\<lambda>t. column_or_nan t c) rest = map (\<lambda>t. the (map_of (cols t) c)) rest"
      using every by (intro map_cong refl) (simp add: Cons column_or_nan_present)
    have cf: "column_or_nan f c = xs"
      using d xs every by (simp add: Cons column_or_nan_present)
    have stacked: "concat (map (\<lambda>t. column_or_nan t c) fs)
        = xs @ concat (map (\<lambda>b. the (map_of b c)) (map cols rest))"
      by (simp add: Cons cf cn comp_def)
    have "map_of (cols df) c = Some (xs @ concat (map (\<lambda>b. the (map_of b c)) (map cols rest)))"
      unfolding shape by (rule map_of_relabelled [OF d xs])
    then show ?thesis
      by (simp only: stacked)
  next
    case False
    have df: "cols df = map (\<lambda>c. (c, concat (map (\<lambda>g. column_or_nan g c) fs)))
                          (union_labels (map columns fs))"
      using ok False dist by (auto simp: pd_concat_def Cons Let_def)
    from c have "c \<in> set (union_labels (map columns fs))"
      by (simp add: columns_def df comp_def)
    then show ?thesis
      by (simp add: df map_of_map_restrict)
  qed
qed

lemma pd_concat_index:
  "(pd_concat fs :: 'b error + 'v frame) = Inr df \<Longrightarrow> index df = concat (map index fs)"
  by (auto simp: pd_concat_def Let_def split: list.splits if_splits)

lemma pd_concat_index_name:
  "(pd_concat fs :: 'b error + 'v frame) = Inr df \<Longrightarrow> list_all (\<lambda>t. index_name t = n) fs \<Longrightarrow>
     index_name df = n"
  by (auto simp: pd_concat_def Let_def list_all_iff split: list.splits if_splits)

lemma pd_concat_total:
  "fs \<noteq> [] \<Longrightarrow>
   list_all (\<lambda>t. distinct (columns t)) fs \<or> list_all (\<lambda>t. columns t = columns (hd fs)) fs \<Longrightarrow>
   \<exists>df. (pd_concat fs :: 'b error + 'v frame) = Inr df"
  by (cases fs) (auto simp: pd_concat_def Let_def)

lemma nrows_concat: "length (concat (map index fs)) = sum_list (map nrows fs)"
  by (induction fs) (simp_all add: nrows_def)

subsection \<open>The loop of \<^verbatim>\<open>to_pandas\<close>\<close>

lemma set_dataset_id_twice: "set_dataset_id (set_dataset_id g i) j = set_dataset_id g j"
  by (simp add: set_dataset_id_def)

lemma table_requests_step: "table_requests (set_dataset_id g i) ids = table_requests g ids"
  by (simp add: table_requests_def set_dataset_id_twice)

lemma standardised_tables_step:
  "standardised_tables env ren (set_dataset_id g i) ids raws = standardised_tables env ren g ids raws"
  by (simp add: standardised_tables_def set_dataset_id_twice)

lemma fetch_each_ok:
  assumes "length raws = length ids"
    and "\<forall>k < length ids.
           erddap_to_pandas env (log @ table_requests g (take k ids))
             (fetcher (set_dataset_id g (ids ! k))) (Some ''time (UTC)'') True = Inr (raws ! k)"
  shows "fetch_each env ren log g ids acc =
           (log @ table_requests g ids,
            (if ids = [] then g else set_dataset_id g (last ids)),
            Inr (acc @ standardised_tables env ren g ids raws))"
  using assms
proof (induction ids arbitrary: log g acc raws)
  case Nil
  then show ?case by (simp add: table_requests_def standardised_tables_def)
next
  case (Cons i ids)
  from Cons.prems(1) obtain r rs where raws: "raws = r # rs" and len: "length rs = length ids"
    by (cases raws) auto
  from Cons.prems(2) have first:
    "erddap_to_pandas env log (fetcher (set_dataset_id g i)) (Some ''time (UTC)'') True = Inr r"
    by (auto simp: raws table_requests_def dest: spec [of _ 0])
  have rest: "\<forall>k < length ids.
      erddap_to_pandas env ((log @ [TableReq (fetcher (set_dataset_id g i))])
           @ table_requests (set_dataset_id g i) (take k ids))
        (fetcher (set_dataset_id (set_dataset_id g i) (ids ! k))) (Some ''time (UTC)'') True
        = Inr (rs ! k)"
  proof (intro allI impI)
    fix k assume "k < length ids"
    then have "Suc k < length (i # ids)" by simp
    with Cons.prems(2) have
      "erddap_to_pandas env (log @ table_requests g (take (Suc k) (i # ids)))
         (fetcher (set_dataset_id g ((i # ids) ! Suc k))) (Some ''time (UTC)'') True
         = Inr (raws ! Suc k)"
      by blast
    then show "erddap_to_pandas env ((log @ [TableReq (fetcher (set_dataset_id g i))])
           @ table_requests (set_dataset_id g i) (take k ids))
        (fetcher (set_dataset_id (set_dataset_id g i) (ids ! k))) (Some ''time (UTC)'') True
        = Inr (rs ! k)"
      by (simp add: raws table_requests_step set_dataset_id_twice table_requests_def)
  qed
  have "fetch_each env ren log g (i # ids) acc =
      fetch_each env ren (log @ [TableReq (fetcher (set_dataset_id g i))]) (set_dataset_id g i) ids
        (acc @ [standardise_df ren r
                  (split_query_head (get_download_url env (fetcher (set_dataset_id g i))))])"
    by (simp add: first Let_def)
  also have "\<dots> =
      ((log @ [TableReq (fetcher (set_dataset_id g i))]) @ table_requests (set_dataset_id g i) ids,
       (if ids = [] then set_dataset_id g i else set_dataset_id (set_dataset_id g i) (last ids)),
       Inr ((acc @ [standardise_df ren r
                  (split_query_head (get_download_url env (fetcher (set_dataset_id g i))))])
            @ standardised_tables env ren (set_dataset_id g i) ids rs))"
    by (rule Cons.IH [OF len rest])
  also have "\<dots> =
      (log @ table_requests g (i # ids),
       (if i # ids = [] then g else set_dataset_id g (last (i # ids))),
       Inr (acc @ standardised_tables env ren g (i # ids) raws))"
    by (simp add: raws table_requests_step set_dataset_id_twice standardised_tables_step
        table_requests_def standardised_tables_def)
  finally show ?case .
qed

lemma index_standardise_df: "index (standardise_df ren df url) = index df"
  by (simp add: standardise_df_def setitem_def index_rename_def rename_columns_def
      columns_str_lower_def)

lemma index_name_standardise_df: "index_name (standardise_df ren df url) = Some ''time''"
  by (simp add: standardise_df_def setitem_def index_rename_def rename_columns_def
      columns_str_lower_def)

lemma length_standardised_tables:
  "length raws = length ids \<Longrightarrow> length (standardised_tables env ren g ids raws) = length ids"
  by (simp add: standardised_tables_def)

lemma index_standardised_tables:
  "length raws = length ids \<Longrightarrow>
     map index (standardised_tables env ren g ids raws) = map index raws"
  by (induction ids raws rule: list_induct2')
     (simp_all add: standardised_tables_def index_standardise_df)

lemma index_name_standardised_tables:
  "list_all (\<lambda>t. index_name t = Some ''time'') (standardised_tables env ren g ids raws)"
  by (auto simp: standardised_tables_def list_all_iff index_name_standardise_df)

text \<open>
  C4. The claim covers every catalog, the one of zero rows too: there
  \<^verbatim>\<open>to_pandas()\<close> returns no table, it raises.
\<close>

theorem to_pandas_catalog_counterexample:
  "\<not> (\<exists>log' g' df. to_pandas sample_env sample_rename [] empty_catalog_fetcher
                      = (log', g', Inr df))"
proof -
  have "to_pandas sample_env sample_rename [] empty_catalog_fetcher =
      ([], empty_catalog_fetcher, Inl (ValueError ''No objects to concatenate''))"
    by (simp add: to_pandas_def pd_concat_def truthy_def empty_catalog_fetcher_def
        new_fetcher_def sample_client_def)
  then show ?thesis by simp
qed

text \<open>
  C4, as the code has it. With no dataset id, a catalog of at least one row and every
  download answering (\<open>raws\<close>, in catalog order, each requested after the ones before
  it), \<^verbatim>\<open>to_pandas()\<close> sends one request per catalog row in catalog order, leaves the
  last id as the client's active id and returns \<^verbatim>\<open>pd.concat\<close> of the standardised
  tables in catalog order. Whenever that yields a table, its index is the raw tables'
  indexes one after the other (so its row count is the sum of theirs, with no re-sort)
  under the name "time", and, when no collected table repeats a label, each of its
  columns is the collected tables' columns of that label one after the other, NaN where
  a table lacks it. It does yield a table when no collected table repeats a label or
  all have the same labels.
\<close>

theorem to_pandas_catalog:
  fixes env :: "('b, 'v) env"
  assumes "\<not> truthy (e_dataset_id (fetcher g))"
    and "datasets g = Some cat"
    and "cat \<noteq> []"
    and "length raws = length cat"
    and "\<forall>k < length cat.
           erddap_to_pandas env (log @ table_requests g (take k (map Dataset_ID cat)))
             (fetcher (set_dataset_id g (Dataset_ID (cat ! k)))) (Some ''time (UTC)'') True
           = Inr (raws ! k)"
  shows "to_pandas env ren log g =
           (log @ table_requests g (map Dataset_ID cat),
            set_dataset_id g (Dataset_ID (last cat)),
            pd_concat (standardised_tables env ren g (map Dataset_ID cat) raws))
       \<and> (\<forall>df. (pd_concat (standardised_tables env ren g (map Dataset_ID cat) raws)
                  :: 'b error + 'v frame) = Inr df \<longrightarrow>
              index df = concat (map index raws) \<and> nrows df = sum_list (map nrows raws)
              \<and> index_name df = Some ''time''
              \<and> (list_all (\<lambda>t. distinct (columns t))
                      (standardised_tables env ren g (map Dataset_ID cat) raws) \<longrightarrow>
                   (\<forall>c \<in> set (columns df). map_of (cols df) c =
                      Some (concat (map (\<lambda>t. column_or_nan t c)
                        (standardised_tables env ren g (map Dataset_ID cat) raws))))))
       \<and> (list_all (\<lambda>t. distinct (columns t))
             (standardised_tables env ren g (map Dataset_ID cat) raws)
          \<or> list_all (\<lambda>t. columns t =
                columns (hd (standardised_tables env ren g (map Dataset_ID cat) raws)))
             (standardised_tables env ren g (map Dataset_ID cat) raws)
          \<longrightarrow> (\<exists>df. (pd_concat (standardised_tables env ren g (map Dataset_ID cat) raws)
                  :: 'b error + 'v frame) = Inr df))"
proof -
  let ?ids = "map Dataset_ID cat"
  let ?tables = "standardised_tables env ren g ?ids raws"
  have len: "length raws = length ?ids" using assms(4) by simp
  have fetches: "\<forall>k < length ?ids.
           erddap_to_pandas env (log @ table_requests g (take k ?ids))
             (fetcher (set_dataset_id g (?ids ! k))) (Some ''time (UTC)'') True = Inr (raws ! k)"
    using assms(5) by simp
  have loop: "fetch_each env ren log g ?ids [] =
      (log @ table_requests g ?ids,
       (if ?ids = [] then g else set_dataset_id g (last ?ids)), Inr ([] @ ?tables))"
    by (rule fetch_each_ok [OF len fetches])
  have last: "last ?ids = Dataset_ID (last cat)"
    using assms(3) by (simp add: last_map)
  have run: "to_pandas env ren log g =
           (log @ table_requests g ?ids, set_dataset_id g (Dataset_ID (last cat)), pd_concat ?tables)"
    using assms(1,2,3) by (simp add: to_pandas_def loop last)
  have rows: "\<forall>df. (pd_concat ?tables :: 'b error + 'v frame) = Inr df \<longrightarrow>
              index df = concat (map index raws) \<and> nrows df = sum_list (map nrows raws)
              \<and> index_name df = Some ''time''
              \<and> (list_all (\<lambda>t. distinct (columns t)) ?tables \<longrightarrow>
                   (\<forall>c \<in> set (columns df). map_of (cols df) c =
                      Some (concat (map (\<lambda>t. column_or_nan t c) ?tables))))"
  proof (intro allI impI)
    fix df assume ok: "(pd_concat ?tables :: 'b error + 'v frame) = Inr df"
    have ix: "index df = concat (map index raws)"
      using pd_concat_index [OF ok] index_standardised_tables [OF len, of env ren g] by simp
    have n: "nrows df = sum_list (map nrows raws)"
      using ix nrows_concat [of raws] by (simp add: nrows_def)
    have nm: "index_name df = Some ''time''"
      by (rule pd_concat_index_name [OF ok index_name_standardised_tables])
    have cs: "list_all (\<lambda>t. distinct (columns t)) ?tables \<longrightarrow>
                   (\<forall>c \<in> set (columns df). map_of (cols df) c =
                      Some (concat (map (\<lambda>t. column_or_nan t c) ?tables)))"
      using pd_concat_columns [OF ok] by blast
    from ix n nm cs show "index df = concat (map index raws) \<and> nrows df = sum_list (map nrows raws)
              \<and> index_name df = Some ''time''
              \<and> (list_all (\<lambda>t. distinct (columns t)) ?tables \<longrightarrow>
                   (\<forall>c \<in> set (columns df). map_of (cols df) c =
                      Some (concat (map (\<lambda>t. column_or_nan t c) ?tables))))" by blast
  qed
  have nonempty: "?tables \<noteq> []"
    using length_standardised_tables [OF len, of env ren g] assms(3) by auto
  have total: "list_all (\<lambda>t. distinct (columns t)) ?tables
          \<or> list_all (\<lambda>t. columns t = columns (hd ?tables)) ?tables
          \<longrightarrow> (\<exists>df. (pd_concat ?tables :: 'b error + 'v frame) = Inr df)"
    using pd_concat_total [OF nonempty] by blast
  from run rows total show ?thesis by blast
qed

theorem to_pandas_catalog_witness:
  "to_pandas sample_env sample_rename [] catalog_fetcher =
     (table_requests catalog_fetcher [''ru29'', ''ru29-delayed''],
      set_dataset_id catalog_fetcher ''ru29-delayed'',
      Inr \<lparr>cols = [(''temperature'', [Val 10, Val 11, NaN]),
                  (''dataset_url'',
                   [Str ''https://gliders.ioos.us/erddap/tabledap/ru29.html'',
                    Str ''https://gliders.ioos.us/erddap/tabledap/ru29.html'',
                    Str ''https://gliders.ioos.us/erddap/tabledap/ru29-delayed.html'']),
                  (''salinity'', [NaN, NaN, Val 35])],
           index_name = Some ''time'', index = [Val 1, Val 2, Val 3]\<rparr>)"
proof -
  have id: "\<not> truthy (e_dataset_id (fetcher catalog_fetcher))"
    by (simp add: truthy_def catalog_fetcher_def new_fetcher_def sample_client_def)
  have cat: "datasets catalog_fetcher = Some sample_catalog"
    by (simp add: catalog_fetcher_def)
  have ne: "sample_catalog \<noteq> []"
    by (simp add: sample_catalog_def)
  have len: "length [table_ru29, table_ru29_delayed] = length sample_catalog"
    by (simp add: sample_catalog_def)
  have ids: "map Dataset_ID sample_catalog = [''ru29'', ''ru29-delayed'']"
    by (simp add: sample_catalog_def)
  have last: "Dataset_ID (last sample_catalog) = ''ru29-delayed''"
    by (simp add: sample_catalog_def)
  have fetches: "\<forall>k < length sample_catalog.
      erddap_to_pandas sample_env ([] @ table_requests catalog_fetcher
            (take k (map Dataset_ID sample_catalog)))
        (fetcher (set_dataset_id catalog_fetcher (Dataset_ID (sample_catalog ! k))))
        (Some ''time (UTC)'') True
      = Inr ([table_ru29, table_ru29_delayed] ! k)"
  proof (intro allI impI)
    fix k assume "k < length sample_catalog"
    then have "k = 0 \<or> k = 1"
      by (auto simp: sample_catalog_def)
    then show "erddap_to_pandas sample_env ([] @ table_requests catalog_fetcher
            (take k (map Dataset_ID sample_catalog)))
        (fetcher (set_dataset_id catalog_fetcher (Dataset_ID (sample_catalog ! k))))
        (Some ''time (UTC)'') True
      = Inr ([table_ru29, table_ru29_delayed] ! k)"
      by (auto simp: sample_env_def sample_catalog_def set_dataset_id_def)
  qed
  have tables: "(pd_concat (standardised_tables sample_env sample_rename catalog_fetcher
        [''ru29'', ''ru29-delayed''] [table_ru29, table_ru29_delayed])
        :: string error + int frame) =
      Inr \<lparr>cols = [(''temperature'', [Val 10, Val 11, NaN]),
                  (''dataset_url'',
                   [Str ''https://gliders.ioos.us/erddap/tabledap/ru29.html'',
                    Str ''https://gliders.ioos.us/erddap/tabledap/ru29.html'',
                    Str ''https://gliders.ioos.us/erddap/tabledap/ru29-delayed.html'']),
                  (''salinity'', [NaN, NaN, Val 35])],
           index_name = Some ''time'', index = [Val 1, Val 2, Val 3]\<rparr>"
    by code_simp
  from to_pandas_catalog [OF id cat ne len fetches, of sample_rename]
  show ?thesis by (simp add: ids last tables)
qed

subsection \<open>\<^verbatim>\<open>get_ids\<close>\<close>

text \<open>
  C6. Against the well-known server, when the download answers with the one column
  "datasetID" and that column holds each dataset id once: if it lists "allDatasets",
  \<^verbatim>\<open>get_ids()\<close> returns (and stores) the column with that entry taken out, the other
  ids as they were; and no list the call returns holds "allDatasets". Against any other
  server the call raises ValueError naming the server, sends no request and leaves the
  object as it was, whatever the server would answer.
\<close>

theorem get_ids_result:
  fixes d :: "('b, 'v) DatasetList"
  shows "(e_server (e d) = ''https://gliders.ioos.us/erddap'' \<longrightarrow>
      erddap_to_pandas env log ((e d)\<lparr>e_dataset_id := Some ''allDatasets''\<rparr>) None False = Inr df \<longrightarrow>
      (getitem_to_list df ''datasetID'' :: 'b error + 'v cell list) = Inr ids \<longrightarrow>
      distinct ids \<longrightarrow>
        (Str ''allDatasets'' \<in> set ids \<longrightarrow>
           get_ids env log d =
             (log @ [TableReq ((e d)\<lparr>e_dataset_id := Some ''allDatasets''\<rparr>)],
              d\<lparr>e := (e d)\<lparr>e_dataset_id := Some ''allDatasets''\<rparr>,
                dataset_ids := Some (filter (\<lambda>i. i \<noteq> Str ''allDatasets'') ids)\<rparr>,
              Inr (filter (\<lambda>i. i \<noteq> Str ''allDatasets'') ids)))
        \<and> (\<forall>r. snd (snd (get_ids env log d)) = Inr r \<longrightarrow> Str ''allDatasets'' \<notin> set r))
   \<and> (e_server (e d) \<noteq> ''https://gliders.ioos.us/erddap'' \<longrightarrow>
        get_ids env log d =
          (log, d, Inl (ValueError (''The '' @ e_server (e d) @ '' does not supported this operation.''))))"
proof -
  have rm: "distinct ids \<Longrightarrow>
      remove1 (Str ''allDatasets'') ids = filter (\<lambda>i. i \<noteq> Str ''allDatasets'') ids"
    for ids :: "'v cell list"
  proof -
    assume "distinct ids"
    then have "remove1 (Str ''allDatasets'') ids = filter (\<lambda>i. Str ''allDatasets'' \<noteq> i) ids"
      by (simp add: distinct_remove1_removeAll removeAll_filter_not_eq)
    also have "\<dots> = filter (\<lambda>i. i \<noteq> Str ''allDatasets'') ids"
      by (rule filter_cong) auto
    finally show ?thesis .
  qed
  show ?thesis
    by (auto simp: get_ids_def Let_def rm)
qed

theorem get_ids_result_witness:
  "get_ids sample_env [] sample_lister =
     ([TableReq (sample_client\<lparr>e_dataset_id := Some ''allDatasets''\<rparr>)],
      \<lparr>e = sample_client\<lparr>e_dataset_id := Some ''allDatasets''\<rparr>, dataset_ids = Some [Str ''ru29'']\<rparr>,
      Inr [Str ''ru29''])
   \<and> get_ids sample_env [] other_lister =
       ([], other_lister,
        Inl (ValueError ''The https://example.org/erddap does not supported this operation.''))"
proof -
  have srv: "e_server (e sample_lister) = ''https://gliders.ioos.us/erddap''"
    by (simp add: sample_lister_def sample_client_def)
  have fetch: "erddap_to_pandas sample_env [] ((e sample_lister)\<lparr>e_dataset_id := Some ''allDatasets''\<rparr>)
      None False = Inr table_all_datasets"
    by (simp add: sample_env_def)
  have col: "(getitem_to_list table_all_datasets ''datasetID'' :: string error + int cell list)
      = Inr [Str ''allDatasets'', Str ''ru29'']"
    by (simp add: getitem_to_list_def table_all_datasets_def)
  have uniq: "distinct [Str ''allDatasets'', Str ''ru29'' :: int cell]"
    by simp
  have other: "e_server (e other_lister) \<noteq> ''https://gliders.ioos.us/erddap''"
    by (simp add: other_lister_def)
  from get_ids_result [of sample_lister sample_env "[]" table_all_datasets
      "[Str ''allDatasets'', Str ''ru29'']"] srv fetch col uniq
  have a: "get_ids sample_env [] sample_lister =
     ([TableReq (sample_client\<lparr>e_dataset_id := Some ''allDatasets''\<rparr>)],
      \<lparr>e = sample_client\<lparr>e_dataset_id := Some ''allDatasets''\<rparr>, dataset_ids = Some [Str ''ru29'']\<rparr>,
      Inr [Str ''ru29''])"
    by (simp add: sample_lister_def)
  from get_ids_result [of other_lister sample_env "[]"] other
  have b: "get_ids sample_env [] other_lister =
       ([], other_lister,
        Inl (ValueError ''The https://example.org/erddap does not supported this operation.''))"
    by (simp add: other_lister_def)
  from a b show ?thesis by simp
qed

end
